theory Spec2Isabelle
  imports Main "HOL-Library.Word"
begin

section \<open>Exceptions\<close>

text \<open>
  The exceptions that occur in \<open>script.py\<close>, as values. All of them derive from Python's
  \<open>Exception\<close>. \<open>BlockNotFound\<close> is web3's; \<open>ConnectionError\<close> is the builtin one, which
  \<open>BlockchainConnector.connect\<close> raises; \<open>IndexError\<close>, \<open>ValueError\<close> and \<open>AttributeError\<close>
  are the builtins raised by indexing, by the address and integer conversions and by a
  missing method; \<open>OtherException\<close> stands for every other subclass of \<open>Exception\<close> (a
  transport error of the HTTP provider, for instance).
\<close>

datatype exn =
  BlockNotFound | ConnectionError | IndexError | ValueError | AttributeError | OtherException

text \<open>
  Statements in sequence: \<open>bind_exn r f\<close> runs \<open>f\<close> on the value of \<open>r\<close>, and is the
  exception of \<open>r\<close> when \<open>r\<close> raised.
\<close>

definition bind_exn :: "exn + 'a \<Rightarrow> ('a \<Rightarrow> exn + 'b) \<Rightarrow> exn + 'b" where
  "bind_exn r f = (case r of Inl e \<Rightarrow> Inl e | Inr x \<Rightarrow> f x)"

section \<open>Bytes and hexadecimal text\<close>

type_synonym byte = "8 word"

definition hex_digit :: "nat \<Rightarrow> char" where
  "hex_digit n = ''0123456789abcdef'' ! (n mod 16)"

text \<open>\<open>bytes.hex()\<close> without a prefix: two lower-case digits for each byte.\<close>

definition hex_of_bytes :: "byte list \<Rightarrow> string" where
  "hex_of_bytes bs = concat (map (\<lambda>b. [hex_digit (unat b div 16), hex_digit (unat b mod 16)]) bs)"

text \<open>
  The value of one hexadecimal digit, either case, as \<open>int(c, 16)\<close> reads it; \<open>None\<close> for
  any other character.
\<close>

definition hex_val :: "char \<Rightarrow> nat option" where
  "hex_val c =
     (let k = (of_char c :: nat) in
      if 48 \<le> k \<and> k \<le> 57 then Some (k - 48)
      else if 97 \<le> k \<and> k \<le> 102 then Some (k - 87)
      else if 65 \<le> k \<and> k \<le> 70 then Some (k - 55)
      else None)"

definition is_hex_char :: "char \<Rightarrow> bool" where
  "is_hex_char c = (hex_val c \<noteq> None)"

definition hex_value :: "string \<Rightarrow> nat" where
  "hex_value s = foldl (\<lambda>a c. a * 16 + (case hex_val c of Some d \<Rightarrow> d | None \<Rightarrow> 0)) 0 s"

text \<open>\<open>str.lower()\<close> and \<open>str.upper()\<close> on one ASCII character.\<close>

definition py_lower :: "char \<Rightarrow> char" where
  "py_lower c =
     (let k = (of_char c :: nat) in if 65 \<le> k \<and> k \<le> 90 then char_of (k + 32) else c)"

definition py_upper :: "char \<Rightarrow> char" where
  "py_upper c =
     (let k = (of_char c :: nat) in if 97 \<le> k \<and> k \<le> 122 then char_of (k - 32) else c)"

text \<open>\<open>int.from_bytes(bs, "big")\<close>, which eth-utils calls \<open>big_endian_to_int\<close>.\<close>

definition big_endian_to_int :: "byte list \<Rightarrow> int" where
  "big_endian_to_int bs = int (foldl (\<lambda>a b. a * 256 + unat b) 0 bs)"

text \<open>A sequence index \<open>xs[i]\<close> with \<open>i \<ge> 0\<close>: out of range it raises \<open>IndexError\<close>.\<close>

definition py_index :: "'a list \<Rightarrow> nat \<Rightarrow> exn + 'a" where
  "py_index xs i = (if i < length xs then Inr (xs ! i) else Inl IndexError)"

text \<open>The slice \<open>s[-40:]\<close>: the last 40 items, or all of \<open>s\<close> when it has fewer.\<close>

definition last40 :: "'a list \<Rightarrow> 'a list" where
  "last40 s = drop (length s - 40) s"

section \<open>The library functions the decoder calls\<close>

text \<open>
  \<open>script.py\<close> decodes with three functions of web3.py and its helpers (hexbytes,
  eth-utils), which are not part of the repository. They are modelled here as the libraries
  define them. Two things are left as parameters, held in \<open>web3_lib\<close>:
  \<^item> \<open>keccak\<close>, the Keccak-256 hash of a text, which only decides the letter case of a
    checksum address;
  \<^item> \<open>hex_prefixed\<close>, whether \<open>HexBytes.hex()\<close> puts \<open>0x\<close> in front of the digits
    (hexbytes before 1.0 does, later versions do not).
  Every theorem below holds for each value of both.
\<close>

record web3_lib =
  keccak :: "string \<Rightarrow> 256 word"
  hex_prefixed :: bool

definition HexBytes_hex :: "web3_lib \<Rightarrow> byte list \<Rightarrow> string" where
  "HexBytes_hex lib bs = (if hex_prefixed lib then ''0x'' else []) @ hex_of_bytes bs"

definition is_0x_prefixed :: "string \<Rightarrow> bool" where
  "is_0x_prefixed v = (take 2 v = ''0x'' \<or> take 2 v = ''0X'')"

definition remove_0x_prefix :: "string \<Rightarrow> string" where
  "remove_0x_prefix v = (if is_0x_prefixed v then drop 2 v else v)"

definition add_0x_prefix :: "string \<Rightarrow> string" where
  "add_0x_prefix v = (if is_0x_prefixed v then v else ''0x'' @ v)"

text \<open>\<open>is_hexstr\<close>: a non-empty text that matches \<open>(0[xX])?[0-9a-fA-F]*\<close>.\<close>

definition is_hexstr :: "string \<Rightarrow> bool" where
  "is_hexstr v = (v \<noteq> [] \<and> list_all is_hex_char (remove_0x_prefix v))"

definition is_hex_address :: "string \<Rightarrow> bool" where
  "is_hex_address v = (is_hexstr v \<and> length (remove_0x_prefix v) = 40)"

text \<open>
  \<open>to_normalized_address\<close> on a \<open>str\<close>: \<open>hexstr_if_str\<close> refuses a text that is not
  hexadecimal, \<open>to_hex\<close> lower-cases it and puts the prefix, and \<open>is_address\<close> asks for 40
  digits. (A lower-cased text is never checksum formatted, so \<open>is_address\<close> is
  \<open>is_hex_address\<close> here.) Both failures are a \<open>ValueError\<close>.
\<close>

definition to_normalized_address :: "string \<Rightarrow> exn + string" where
  "to_normalized_address v =
     (if remove_0x_prefix v \<noteq> [] \<and> \<not> is_hexstr v then Inl ValueError
      else let hex_address = add_0x_prefix (map py_lower v) in
        if is_hex_address hex_address then Inr hex_address else Inl ValueError)"

text \<open>
  \<open>encode_hex\<close> of the 32 bytes of a hash: \<open>0x\<close> and 64 digits, most significant first.
\<close>

definition encode_hex_hash :: "256 word \<Rightarrow> string" where
  "encode_hex_hash h = ''0x'' @ map (\<lambda>j. hex_digit (unat h div 16 ^ (63 - j))) [0..<64]"

text \<open>
  \<open>to_checksum_address\<close>: character \<open>i\<close> of the normalized address, for \<open>i\<close> from 2 to 41,
  is put in upper case when digit \<open>i\<close> of the hash of the 40 digits is above 7.
\<close>

definition to_checksum_address :: "web3_lib \<Rightarrow> string \<Rightarrow> exn + string" where
  "to_checksum_address lib v =
     (case to_normalized_address v of
        Inl e \<Rightarrow> Inl e
      | Inr norm_address \<Rightarrow>
          let address_hash = encode_hex_hash (keccak lib (remove_0x_prefix norm_address)) in
          Inr (add_0x_prefix
                 (map (\<lambda>i. if hex_value [address_hash ! i] > 7
                            then py_upper (norm_address ! i) else norm_address ! i)
                      [2..<42])))"

text \<open>
  \<open>Web3.to_int(hexstr=s)\<close> is \<open>int(s, 16)\<close>. On the texts \<open>HexBytes.hex()\<close> produces
  (digits, with or without \<open>0x\<close> in front) it is the value of the digits, and a
  \<open>ValueError\<close> when there is no digit. Signs, blanks and underscores, which \<open>int\<close>
  would also accept, never occur in such a text and are a \<open>ValueError\<close> in this model.
\<close>

definition to_int_hexstr :: "string \<Rightarrow> exn + int" where
  "to_int_hexstr s =
     (let digits = remove_0x_prefix s in
      if digits \<noteq> [] \<and> list_all is_hex_char digits then Inr (int (hex_value digits))
      else Inl ValueError)"

section \<open>The log decoder\<close>

text \<open>
  A raw log as web3 returns it (\<open>LogReceipt\<close>): the fields \<open>_parse_log\<close> reads. The
  scanner object \<open>self\<close> holds the three attributes set by \<open>__init__\<close>, and a logger.
  The messages of the logger are modelled for \<open>_parse_log\<close> only (\<open>parse_log_io\<close> below),
  where a claim is about them.
\<close>

record raw_log =
  log_topics :: "byte list list"
  log_data :: "byte list"
  log_transactionHash :: "byte list"
  log_blockNumber :: int

record event =
  token :: string
  sender :: string
  nonce :: int
  amount :: int
  destinationChainId :: int
  transactionHash :: string
  blockNumber :: int

record scanner =
  contract_address :: string
  confirmations_required :: int
  event_topic :: string

text \<open>
  \<open>BridgeEventScanner._parse_log\<close>, statement by statement; the first statement that
  raises ends the call with its exception.
\<close>

definition parse_log :: "web3_lib \<Rightarrow> scanner \<Rightarrow> raw_log \<Rightarrow> exn + event" where
  "parse_log lib self log =
     bind_exn (py_index (log_topics log) 1) (\<lambda>t1.
     bind_exn (to_checksum_address lib (''0x'' @ last40 (HexBytes_hex lib t1))) (\<lambda>tok.
     bind_exn (py_index (log_topics log) 2) (\<lambda>t2.
     bind_exn (to_checksum_address lib (''0x'' @ last40 (HexBytes_hex lib t2))) (\<lambda>sndr.
     bind_exn (py_index (log_topics log) 3) (\<lambda>t3.
     bind_exn (to_int_hexstr (HexBytes_hex lib t3)) (\<lambda>n.
       let non_indexed_data = log_data log in
       Inr \<lparr>token = tok, sender = sndr, nonce = n,
            amount = big_endian_to_int (take 32 non_indexed_data),
            destinationChainId = big_endian_to_int (take 32 (drop 32 non_indexed_data)),
            transactionHash = HexBytes_hex lib (log_transactionHash log),
            blockNumber = log_blockNumber log\<rparr>))))))"

text \<open>
  \<open>_parse_log\<close> with the state it can reach: the attributes of the scanner object and the
  messages its logger has written so far (the root logger is set to level \<open>INFO\<close>, so
  every \<open>logger.info\<close> call writes one). The last statement before \<open>return\<close> is
  \<open>self.logger.info\<close>, with the transaction hash in the message; a call that raises never
  gets there. No statement assigns an attribute of \<open>self\<close>.
\<close>

record scanner_state =
  attributes :: scanner
  logged :: "string list"

definition parse_log_io ::
  "web3_lib \<Rightarrow> scanner_state \<Rightarrow> raw_log \<Rightarrow> (exn + event) \<times> scanner_state" where
  "parse_log_io lib st log =
     (case parse_log lib (attributes st) log of
        Inl e \<Rightarrow> (Inl e, st)
      | Inr parsed_data \<Rightarrow>
          (Inr parsed_data,
           st\<lparr>logged := logged st @
              [''Successfully parsed TokensLocked event in tx '' @ transactionHash parsed_data]\<rparr>))"

section \<open>The scanner\<close>

text \<open>
  The ledger node, as \<open>scan_blocks\<close> sees it: what \<open>w3.eth.get_logs\<close> answers to a filter,
  the list of raw logs or the exception it raises.
\<close>

record filter_params =
  fromBlock :: int
  toBlock :: int
  address :: string
  filter_topics :: "string list"

type_synonym ledger = "filter_params \<Rightarrow> exn + raw_log list"

definition scan_filter :: "scanner \<Rightarrow> int \<Rightarrow> int \<Rightarrow> filter_params" where
  "scan_filter self from_block to_block =
     \<lparr>fromBlock = from_block, toBlock = to_block,
      address = contract_address self, filter_topics = [event_topic self]\<rparr>"

text \<open>
  The list comprehension \<open>[f(x) for x in xs]\<close>: the first call that raises ends it, and
  the values built so far are lost.
\<close>

fun comprehension :: "('a \<Rightarrow> exn + 'b) \<Rightarrow> 'a list \<Rightarrow> exn + 'b list" where
  "comprehension f [] = Inr []"
| "comprehension f (x # xs) =
     bind_exn (f x) (\<lambda>y. bind_exn (comprehension f xs) (\<lambda>ys. Inr (y # ys)))"

text \<open>The body of the \<open>try\<close> statement of \<open>scan_blocks\<close>.\<close>

definition scan_try :: "web3_lib \<Rightarrow> scanner \<Rightarrow> ledger \<Rightarrow> int \<Rightarrow> int \<Rightarrow> exn + event list" where
  "scan_try lib self get_logs from_block to_block =
     bind_exn (get_logs (scan_filter self from_block to_block)) (\<lambda>logs.
       if logs \<noteq> [] then comprehension (parse_log lib self) logs else Inr [])"

text \<open>
  \<open>BridgeEventScanner.scan_blocks\<close>. The result is paired with the filters sent to the
  node during the call, in order: the \<open>try\<close> body sends exactly one, as its first action.
  The two handlers, \<open>except BlockNotFound\<close> and \<open>except Exception\<close>, both return the empty
  list.
\<close>

definition scan_blocks ::
  "web3_lib \<Rightarrow> scanner \<Rightarrow> ledger \<Rightarrow> int \<Rightarrow> int \<Rightarrow> (exn + event list) \<times> filter_params list" where
  "scan_blocks lib self get_logs from_block to_block =
     (if from_block > to_block then (Inr [], [])
      else
        ((case scan_try lib self get_logs from_block to_block of
            Inr events \<Rightarrow> Inr events
          | Inl BlockNotFound \<Rightarrow> Inr []
          | Inl e \<Rightarrow> Inr []),
         [scan_filter self from_block to_block]))"

section \<open>The destination side\<close>

text \<open>
  \<open>DestinationChainProcessor.process_event\<close> asks an external price API first. The answer
  is either a \<open>requests.exceptions.RequestException\<close> (no connection, a timeout, a bad
  status from \<open>raise_for_status\<close>, a body that is not JSON) or the parsed JSON body. A
  \<open>dict\<close> is the only JSON value with a \<open>get\<close> method; on any other value the call raises
  \<open>AttributeError\<close>, which the handler for \<open>RequestException\<close> does not catch. The second
  \<open>try\<close> block only writes log messages and returns \<open>True\<close>.
\<close>

datatype json =
  JNull | JBool bool | JNum int | JStr string | JArr "json list" | JObj "(string \<times> json) list"

datatype api_response = RequestException | JsonBody json

definition py_get :: "json \<Rightarrow> string \<Rightarrow> json \<Rightarrow> exn + json" where
  "py_get obj key dflt =
     (case obj of
        JObj kv \<Rightarrow> Inr (case map_of kv key of Some v \<Rightarrow> v | None \<Rightarrow> dflt)
      | _ \<Rightarrow> Inl AttributeError)"

definition process_event :: "api_response \<Rightarrow> event \<Rightarrow> exn + bool" where
  "process_event response event_data =
     (case response of
        RequestException \<Rightarrow> Inr False
      | JsonBody price_data \<Rightarrow>
          bind_exn (py_get price_data ''ethereum'' (JObj [])) (\<lambda>eth.
          bind_exn (py_get eth ''usd'' (JStr ''N/A'')) (\<lambda>eth_price. Inr True)))"

text \<open>
  The loop \<open>for event in events\<close> of \<open>main\<close>: \<open>api i\<close> is the answer of the price API to the
  \<open>i\<close>-th call of the cycle. The value \<open>success\<close> is only logged.
\<close>

fun process_events :: "(nat \<Rightarrow> api_response) \<Rightarrow> nat \<Rightarrow> event list \<Rightarrow> exn + unit" where
  "process_events api i [] = Inr ()"
| "process_events api i (ev # evs) =
     bind_exn (process_event (api i) ev) (\<lambda>success. process_events api (Suc i) evs)"

section \<open>The poll loop\<close>

text \<open>
  One iteration of \<open>while True\<close> in \<open>main\<close>. The outside world of one iteration is
  \<open>cycle_env\<close>: what \<open>get_latest_block\<close> returns or raises, the ledger, and the price API.
  The only state the loop carries is the local variable \<open>last_processed_block\<close>.
\<close>

record cycle_env =
  latest_block :: "exn + int"
  get_logs :: ledger
  api :: "nat \<Rightarrow> api_response"

datatype cycle_outcome = Committed int int | NoNewBlocks | Backoff | Critical

text \<open>
  The body of the \<open>try\<close> statement: the new value of \<open>last_processed_block\<close> and what
  happened, or the exception that left the body before the assignment.
\<close>

definition cycle_try ::
  "web3_lib \<Rightarrow> scanner \<Rightarrow> int \<Rightarrow> cycle_env \<Rightarrow> int \<Rightarrow> exn + int \<times> cycle_outcome" where
  "cycle_try lib scnr CONFIRMATIONS_REQUIRED env last_processed_block =
     bind_exn (latest_block env) (\<lambda>latest.
       let to_block = latest - CONFIRMATIONS_REQUIRED;
           from_block = last_processed_block + 1
       in if from_block \<le> to_block then
            bind_exn (fst (scan_blocks lib scnr (get_logs env) from_block to_block)) (\<lambda>events.
            bind_exn (process_events (api env) 0 events) (\<lambda>u.
              Inr (to_block, Committed from_block to_block)))
          else Inr (last_processed_block, NoNewBlocks))"

text \<open>
  The handlers: \<open>except ConnectionError\<close> waits and reconnects, \<open>except Exception\<close> logs;
  neither assigns \<open>last_processed_block\<close>.
\<close>

definition main_cycle ::
  "web3_lib \<Rightarrow> scanner \<Rightarrow> int \<Rightarrow> cycle_env \<Rightarrow> int \<Rightarrow> int \<times> cycle_outcome" where
  "main_cycle lib scnr CONFIRMATIONS_REQUIRED env last_processed_block =
     (case cycle_try lib scnr CONFIRMATIONS_REQUIRED env last_processed_block of
        Inr r \<Rightarrow> r
      | Inl ConnectionError \<Rightarrow> (last_processed_block, Backoff)
      | Inl e \<Rightarrow> (last_processed_block, Critical))"

text \<open>
  A finite run of the loop, one \<open>cycle_env\<close> for each iteration: the value of
  \<open>last_processed_block\<close> at its end, and the ranges committed on the way, in order.
\<close>

fun run_cycles :: "web3_lib \<Rightarrow> scanner \<Rightarrow> int \<Rightarrow> cycle_env list \<Rightarrow> int \<Rightarrow> int" where
  "run_cycles lib scnr conf [] c = c"
| "run_cycles lib scnr conf (env # envs) c =
     run_cycles lib scnr conf envs (fst (main_cycle lib scnr conf env c))"

fun committed_ranges ::
  "web3_lib \<Rightarrow> scanner \<Rightarrow> int \<Rightarrow> cycle_env list \<Rightarrow> int \<Rightarrow> (int \<times> int) list" where
  "committed_ranges lib scnr conf [] c = []"
| "committed_ranges lib scnr conf (env # envs) c =
     (case main_cycle lib scnr conf env c of
        (c', Committed a b) \<Rightarrow> (a, b) # committed_ranges lib scnr conf envs c'
      | (c', other) \<Rightarrow> committed_ranges lib scnr conf envs c')"

section \<open>Synthetic logs\<close>

text \<open>
  The fixed encoding of a \<open>TokensLocked\<close> log, written from the specification's words, to
  be compared with the decoder: \<open>token\<close> and \<open>sender\<close> are 20-byte addresses, right-aligned
  in the 32-byte topic slots 1 and 2; \<open>nonce\<close> is a 256-bit integer in topic slot 3;
  \<open>amount\<close> is bytes 0 to 31 and \<open>destinationChainId\<close> bytes 32 to 63 of the data, each a
  big-endian unsigned integer. Slot 0 holds the event signature hash.
\<close>

text \<open>\<open>n.to_bytes(k, "big")\<close>: the \<open>k\<close> low bytes of \<open>n\<close>, most significant first.\<close>

primrec be_bytes :: "nat \<Rightarrow> nat \<Rightarrow> byte list" where
  "be_bytes 0 n = []"
| "be_bytes (Suc k) n = be_bytes k (n div 256) @ [of_nat (n mod 256)]"

definition address_bytes :: "160 word \<Rightarrow> byte list" where
  "address_bytes a = be_bytes 20 (unat a)"

definition address_slot :: "160 word \<Rightarrow> byte list" where
  "address_slot a = replicate 12 0 @ address_bytes a"

definition uint256_slot :: "256 word \<Rightarrow> byte list" where
  "uint256_slot n = be_bytes 32 (unat n)"

definition synthetic_log ::
  "byte list \<Rightarrow> 160 word \<Rightarrow> 160 word \<Rightarrow> 256 word \<Rightarrow> 256 word \<Rightarrow> 256 word \<Rightarrow> byte list \<Rightarrow> int
   \<Rightarrow> raw_log" where
  "synthetic_log signature tok sndr n amt dst tx_hash height =
     \<lparr>log_topics = [signature, address_slot tok, address_slot sndr, uint256_slot n],
      log_data = uint256_slot amt @ uint256_slot dst,
      log_transactionHash = tx_hash,
      log_blockNumber = height\<rparr>"

section \<open>Facts about hexadecimal text\<close>

lemma lt16_cases: "n < 16 \<Longrightarrow> n \<in> {0,1,2,3,4,5,6,7,8,9,10,11,12,13,14,15::nat}"
  by (simp; arith)

lemma hex_val_hex_digit: "n < 16 \<Longrightarrow> hex_val (hex_digit n) = Some n"
  using lt16_cases [of n] by (auto simp: hex_digit_def hex_val_def)

lemma is_hex_char_hex_digit: "is_hex_char (hex_digit n)"
proof -
  have "hex_digit n = hex_digit (n mod 16)" by (simp add: hex_digit_def)
  then show ?thesis using hex_val_hex_digit [of "n mod 16"] by (simp add: is_hex_char_def)
qed

lemma py_lower_hex_digit: "py_lower (hex_digit n) = hex_digit n"
proof -
  have "n mod 16 < 16" by simp
  from lt16_cases [OF this] show ?thesis
    by (auto simp: hex_digit_def py_lower_def)
qed

lemma hex_val_py_upper: "hex_val (py_upper c) = hex_val c"
  by (auto simp: hex_val_def py_upper_def Let_def)

lemma hex_val_py_lower: "is_hex_char (py_lower c) = is_hex_char c"
  by (auto simp: is_hex_char_def hex_val_def py_lower_def Let_def)

lemma is_hex_char_py_upper: "is_hex_char (py_upper c) = is_hex_char c"
  by (simp add: is_hex_char_def hex_val_py_upper)

lemma not_hex_x: "\<not> is_hex_char CHR ''x''" "\<not> is_hex_char CHR ''X''"
  by (simp_all add: is_hex_char_def hex_val_def)

lemma hex_of_bytes_Nil: "hex_of_bytes [] = []"
  by (simp add: hex_of_bytes_def)

lemma hex_of_bytes_Cons:
  "hex_of_bytes (b # bs) = hex_digit (unat b div 16) # hex_digit (unat b mod 16) # hex_of_bytes bs"
  by (simp add: hex_of_bytes_def)

lemma hex_of_bytes_append: "hex_of_bytes (xs @ ys) = hex_of_bytes xs @ hex_of_bytes ys"
  by (simp add: hex_of_bytes_def)

lemma length_hex_of_bytes: "length (hex_of_bytes bs) = 2 * length bs"
  by (induction bs) (simp_all add: hex_of_bytes_Nil hex_of_bytes_Cons)

lemma all_hex_hex_of_bytes: "list_all is_hex_char (hex_of_bytes bs)"
  by (induction bs) (simp_all add: hex_of_bytes_Nil hex_of_bytes_Cons is_hex_char_hex_digit)

lemma lower_hex_of_bytes: "map py_lower (hex_of_bytes bs) = hex_of_bytes bs"
  by (induction bs) (simp_all add: hex_of_bytes_Nil hex_of_bytes_Cons py_lower_hex_digit)

lemma drop_hex_of_bytes: "drop (2 * k) (hex_of_bytes bs) = hex_of_bytes (drop k bs)"
proof (induction bs arbitrary: k)
  case Nil
  then show ?case by (simp add: hex_of_bytes_Nil)
next
  case (Cons b bs)
  then show ?case by (cases k) (simp_all add: hex_of_bytes_Cons)
qed

lemma byte_digits: "unat (b :: byte) div 16 < 16" "unat b div 16 * 16 + unat b mod 16 = unat b"
proof -
  have "unat b < 256" using unsigned_less [of b] by simp
  then show "unat b div 16 < 16" by simp
  show "unat b div 16 * 16 + unat b mod 16 = unat b" by simp
qed

lemma foldl_hex_of_bytes:
  "foldl (\<lambda>a c. a * 16 + (case hex_val c of Some d \<Rightarrow> d | None \<Rightarrow> 0)) a (hex_of_bytes bs)
   = foldl (\<lambda>a b. a * 256 + unat b) a bs"
proof (induction bs arbitrary: a)
  case Nil
  then show ?case by (simp add: hex_of_bytes_Nil)
next
  case (Cons b bs)
  let ?h = "\<lambda>a c. a * 16 + (case hex_val c of Some d \<Rightarrow> d | None \<Rightarrow> (0::nat))"
  have e: "(a * 16 + unat b div 16) * 16 + unat b mod 16 = a * 256 + unat b"
    using byte_digits(2) [of b] by simp
  have "foldl ?h a (hex_of_bytes (b # bs))
        = foldl ?h ((a * 16 + unat b div 16) * 16 + unat b mod 16) (hex_of_bytes bs)"
    by (simp add: hex_of_bytes_Cons hex_val_hex_digit byte_digits(1))
  also have "\<dots> = foldl (\<lambda>a b. a * 256 + unat b) (a * 256 + unat b) bs"
    unfolding e by (rule Cons.IH)
  finally show ?case by simp
qed

lemma hex_value_hex_of_bytes: "int (hex_value (hex_of_bytes bs)) = big_endian_to_int bs"
  by (simp add: hex_value_def big_endian_to_int_def foldl_hex_of_bytes)

lemma all_hex_not_prefixed: "list_all is_hex_char s \<Longrightarrow> \<not> is_0x_prefixed s"
proof (cases s)
  case Nil
  then show ?thesis by (simp add: is_0x_prefixed_def)
next
  case (Cons a t)
  assume h: "list_all is_hex_char s"
  show ?thesis
  proof (cases t)
    case Nil
    with Cons show ?thesis by (simp add: is_0x_prefixed_def)
  next
    case (Cons b u)
    with h \<open>s = a # t\<close> have "is_hex_char b" by simp
    then have "b \<noteq> CHR ''x''" "b \<noteq> CHR ''X''" using not_hex_x by auto
    with Cons \<open>s = a # t\<close> show ?thesis by (simp add: is_0x_prefixed_def)
  qed
qed

lemma prefixed_0x: "is_0x_prefixed (CHR ''0'' # CHR ''x'' # s)"
  by (simp add: is_0x_prefixed_def)

lemma remove_0x_prefix_0x: "remove_0x_prefix (CHR ''0'' # CHR ''x'' # s) = s"
  by (simp add: remove_0x_prefix_def is_0x_prefixed_def)

lemma remove_0x_prefix_hex: "list_all is_hex_char s \<Longrightarrow> remove_0x_prefix s = s"
  by (simp add: remove_0x_prefix_def all_hex_not_prefixed)

lemma to_normalized_address_0x:
  "to_normalized_address (''0x'' @ s) =
     (if list_all is_hex_char s \<and> length s = 40 then Inr (''0x'' @ map py_lower s)
      else Inl ValueError)"
proof -
  have l: "map py_lower (''0x'' @ s) = ''0x'' @ map py_lower s"
    by (simp add: py_lower_def)
  have a: "list_all is_hex_char (map py_lower s) = list_all is_hex_char s"
    by (simp add: list_all_iff hex_val_py_lower)
  show ?thesis
    unfolding to_normalized_address_def l
    by (auto simp: Let_def is_hexstr_def is_hex_address_def add_0x_prefix_def prefixed_0x
        remove_0x_prefix_0x a)
qed

lemma hex_value_cong: "map hex_val xs = map hex_val ys \<Longrightarrow> hex_value xs = hex_value ys"
proof -
  have "hex_value zs = foldl (\<lambda>a d. a * 16 + (case d of Some d \<Rightarrow> d | None \<Rightarrow> 0)) 0 (map hex_val zs)"
    for zs by (simp add: hex_value_def foldl_map)
  then show "map hex_val xs = map hex_val ys \<Longrightarrow> hex_value xs = hex_value ys" by simp
qed

lemma all_hex_cong: "map hex_val xs = map hex_val ys \<Longrightarrow> list_all is_hex_char xs = list_all is_hex_char ys"
proof -
  have "list_all is_hex_char zs = list_all (\<lambda>d. d \<noteq> None) (map hex_val zs)" for zs
    by (simp add: list_all_iff is_hex_char_def)
  then show "map hex_val xs = map hex_val ys \<Longrightarrow> list_all is_hex_char xs = list_all is_hex_char ys"
    by simp
qed

lemma checksum_chars:
  assumes "length t = 40"
  shows "map hex_val (map (\<lambda>i. if P i then py_upper ((CHR ''0'' # CHR ''x'' # t) ! i)
                                else (CHR ''0'' # CHR ''x'' # t) ! i) [2..<42]) = map hex_val t"
proof (rule nth_equalityI)
  show "length (map hex_val (map (\<lambda>i. if P i then py_upper ((CHR ''0'' # CHR ''x'' # t) ! i)
                                else (CHR ''0'' # CHR ''x'' # t) ! i) [2..<42])) = length (map hex_val t)"
    using assms by (simp del: upt_rec_numeral)
next
  fix i
  assume "i < length (map hex_val (map (\<lambda>i. if P i then py_upper ((CHR ''0'' # CHR ''x'' # t) ! i)
                                else (CHR ''0'' # CHR ''x'' # t) ! i) [2..<42]))"
  then have i: "i < 40" by (simp del: upt_rec_numeral)
  then have n: "[2..<42] ! i = 2 + i" by (intro nth_upt) simp
  have c: "(CHR ''0'' # CHR ''x'' # t) ! (2 + i) = t ! i" by simp
  show "map hex_val (map (\<lambda>i. if P i then py_upper ((CHR ''0'' # CHR ''x'' # t) ! i)
                                else (CHR ''0'' # CHR ''x'' # t) ! i) [2..<42]) ! i = map hex_val t ! i"
    using i assms by (simp add: n c hex_val_py_upper del: upt_Suc upt_rec_numeral)
qed

lemma to_checksum_address_0x:
  "to_checksum_address lib (CHR ''0'' # CHR ''x'' # s) =
     (if list_all is_hex_char s \<and> length s = 40
      then Inr (add_0x_prefix
             (map (\<lambda>i. if hex_value [encode_hex_hash (keccak lib (map py_lower s)) ! i] > 7
                        then py_upper ((CHR ''0'' # CHR ''x'' # map py_lower s) ! i)
                        else (CHR ''0'' # CHR ''x'' # map py_lower s) ! i) [2..<42]))
      else Inl ValueError)"
  using to_normalized_address_0x [of s]
  by (simp add: to_checksum_address_def Let_def remove_0x_prefix_0x
      del: upt_Suc upt_rec_numeral)

lemma isl_to_checksum_address_0x:
  "isl (to_checksum_address lib (CHR ''0'' # CHR ''x'' # s)) =
     (\<not> (list_all is_hex_char s \<and> length s = 40))"
  by (simp add: to_checksum_address_0x del: upt_Suc upt_rec_numeral)

lemma to_int_hexstr_checksum:
  assumes "to_checksum_address lib (CHR ''0'' # CHR ''x'' # s) = Inr tok"
  shows "to_int_hexstr tok = Inr (int (hex_value s))"
proof -
  from assms have h: "list_all is_hex_char s" and l: "length s = 40"
    by (auto simp: to_checksum_address_0x split: if_splits simp del: upt_Suc upt_rec_numeral)
  define cs where "cs = map (\<lambda>i. if hex_value [encode_hex_hash (keccak lib (map py_lower s)) ! i] > 7
                        then py_upper ((CHR ''0'' # CHR ''x'' # map py_lower s) ! i)
                        else (CHR ''0'' # CHR ''x'' # map py_lower s) ! i) [2..<42]"
  have v: "map hex_val cs = map hex_val (map py_lower s)"
    unfolding cs_def by (rule checksum_chars) (simp add: l)
  have lw: "map hex_val (map py_lower s) = map hex_val s"
    using h by (auto simp: list_all_iff is_hex_char_def hex_val_def py_lower_def Let_def)
  have hc: "list_all is_hex_char cs" using all_hex_cong [OF v] all_hex_cong [OF lw] h by simp
  have "cs \<noteq> []" using v l by auto
  from assms have "tok = add_0x_prefix cs"
    by (simp add: to_checksum_address_0x h l cs_def del: upt_Suc upt_rec_numeral)
  then have "tok = CHR ''0'' # CHR ''x'' # cs"
    by (simp add: add_0x_prefix_def all_hex_not_prefixed [OF hc])
  then show ?thesis
    using hc \<open>cs \<noteq> []\<close> hex_value_cong [OF v] hex_value_cong [OF lw]
    by (simp add: to_int_hexstr_def remove_0x_prefix_0x)
qed

section \<open>Facts about the decoder\<close>

lemma HexBytes_hex_cases:
  "HexBytes_hex lib t = hex_of_bytes t \<or> HexBytes_hex lib t = CHR ''0'' # CHR ''x'' # hex_of_bytes t"
  by (simp add: HexBytes_hex_def)

lemma last40_long:
  assumes "20 \<le> length t"
  shows "last40 (HexBytes_hex lib t) = hex_of_bytes (drop (length t - 20) t)"
proof -
  have e: "2 * length t - 40 = 2 * (length t - 20)" by simp
  have "drop (2 * length t - 40) (hex_of_bytes t) = hex_of_bytes (drop (length t - 20) t)"
    unfolding e by (rule drop_hex_of_bytes)
  moreover have "Suc (Suc (2 * length t)) - 40 = Suc (Suc (2 * length t - 40))"
    using assms by simp
  ultimately show ?thesis
    by (simp add: last40_def HexBytes_hex_def length_hex_of_bytes)
qed

lemma last40_short:
  assumes "length t < 20"
  shows "\<not> (list_all is_hex_char (last40 (HexBytes_hex lib t)) \<and> length (last40 (HexBytes_hex lib t)) = 40)"
proof (cases "hex_prefixed lib")
  case True
  have "Suc (Suc (2 * length t)) - 40 = 0" using assms by simp
  then have "last40 (HexBytes_hex lib t) = CHR ''0'' # CHR ''x'' # hex_of_bytes t"
    using True by (simp add: last40_def HexBytes_hex_def length_hex_of_bytes)
  then show ?thesis using not_hex_x(1) by simp
next
  case False
  then have "length (last40 (HexBytes_hex lib t)) = 2 * length t - (2 * length t - 40)"
    by (simp add: last40_def HexBytes_hex_def length_hex_of_bytes)
  then show ?thesis using assms by simp
qed

lemma address_of_topic:
  "isl (to_checksum_address lib (CHR ''0'' # CHR ''x'' # last40 (HexBytes_hex lib t))) = (length t < 20)"
proof (cases "length t < 20")
  case True
  then show ?thesis using last40_short [OF True, of lib] by (simp add: isl_to_checksum_address_0x)
next
  case False
  then have l: "20 \<le> length t" by simp
  show ?thesis
    using False
    by (simp add: isl_to_checksum_address_0x last40_long [OF l] all_hex_hex_of_bytes
        length_hex_of_bytes)
qed

lemma to_int_hexstr_HexBytes:
  "to_int_hexstr (HexBytes_hex lib t) =
     (if t = [] then Inl ValueError else Inr (big_endian_to_int t))"
proof -
  have r: "remove_0x_prefix (HexBytes_hex lib t) = hex_of_bytes t"
    by (simp add: HexBytes_hex_def remove_0x_prefix_0x remove_0x_prefix_hex all_hex_hex_of_bytes)
  have n: "(hex_of_bytes t = []) = (t = [])"
    using length_hex_of_bytes [of t] by (metis length_0_conv mult_is_0 zero_neq_numeral)
  show ?thesis
    by (simp add: to_int_hexstr_def r n all_hex_hex_of_bytes hex_value_hex_of_bytes)
qed

lemma isl_bind_exn: "isl (bind_exn r f) = (isl r \<or> isl (f (projr r)))"
  by (cases r) (simp_all add: bind_exn_def)

lemma bind_exn_Inr:
  "(bind_exn r f = Inr y) = (\<exists>x. r = Inr x \<and> f x = Inr y)"
  by (cases r) (simp_all add: bind_exn_def)

lemma bind_exn_Inl:
  "(bind_exn r f = Inl e) = (r = Inl e \<or> (\<exists>x. r = Inr x \<and> f x = Inl e))"
  by (cases r) (auto simp: bind_exn_def)

lemma py_index_Inr: "(py_index xs i = Inr x) = (i < length xs \<and> x = xs ! i)"
  by (auto simp: py_index_def)

lemma py_index_Inl: "(py_index xs i = Inl e) = (\<not> i < length xs \<and> e = IndexError)"
  by (auto simp: py_index_def)

lemma to_checksum_address_Inl: "to_checksum_address lib v = Inl e \<Longrightarrow> e = ValueError"
  by (auto simp: to_checksum_address_def to_normalized_address_def Let_def
      split: sum.splits if_splits simp del: upt_rec_numeral)

lemma to_int_hexstr_Inl: "to_int_hexstr s = Inl e \<Longrightarrow> e = ValueError"
  by (auto simp: to_int_hexstr_def Let_def split: if_splits)

lemma parse_log_Inl:
  "parse_log lib self log = Inl e \<Longrightarrow> e = IndexError \<or> e = ValueError"
  unfolding parse_log_def
  by (auto simp: bind_exn_Inl py_index_Inl Let_def
      dest: to_checksum_address_Inl to_int_hexstr_Inl)

lemma isl_parse_log:
  "isl (parse_log lib self log) =
     (length (log_topics log) < 4 \<or> length (log_topics log ! 1) < 20
      \<or> length (log_topics log ! 2) < 20 \<or> log_topics log ! 3 = [])"
proof (cases "length (log_topics log) < 4")
  case True
  then consider "\<not> 1 < length (log_topics log)" | "1 < length (log_topics log)" "\<not> 2 < length (log_topics log)"
    | "1 < length (log_topics log)" "2 < length (log_topics log)" "\<not> 3 < length (log_topics log)"
    by linarith
  then have "isl (parse_log lib self log)"
    by cases (simp_all add: parse_log_def isl_bind_exn py_index_def)
  with True show ?thesis by simp
next
  case False
  then have "1 < length (log_topics log)" "2 < length (log_topics log)" "3 < length (log_topics log)"
    by simp_all
  with False show ?thesis
    by (simp add: parse_log_def isl_bind_exn py_index_def address_of_topic
        to_int_hexstr_HexBytes Let_def)
qed

lemma parse_log_Inr:
  assumes "parse_log lib self log = Inr ev"
  shows "to_checksum_address lib (CHR ''0'' # CHR ''x'' # last40 (HexBytes_hex lib (log_topics log ! 1)))
           = Inr (token ev)"
    and "to_checksum_address lib (CHR ''0'' # CHR ''x'' # last40 (HexBytes_hex lib (log_topics log ! 2)))
           = Inr (sender ev)"
    and "nonce ev = big_endian_to_int (log_topics log ! 3)"
    and "amount ev = big_endian_to_int (take 32 (log_data log))"
    and "destinationChainId ev = big_endian_to_int (take 32 (drop 32 (log_data log)))"
    and "transactionHash ev = HexBytes_hex lib (log_transactionHash log)"
    and "blockNumber ev = log_blockNumber log"
  using assms unfolding parse_log_def
  by (auto simp: bind_exn_Inr py_index_Inr Let_def to_int_hexstr_HexBytes split: if_splits)

lemma length_be_bytes: "length (be_bytes k n) = k"
  by (induction k arbitrary: n) simp_all

lemma big_endian_snoc:
  "big_endian_to_int (bs @ [b]) = big_endian_to_int bs * 256 + int (unat b)"
  by (simp add: big_endian_to_int_def)

lemma big_endian_be_bytes: "n < 256 ^ k \<Longrightarrow> big_endian_to_int (be_bytes k n) = int n"
proof (induction k arbitrary: n)
  case 0
  then show ?case by (simp add: big_endian_to_int_def)
next
  case (Suc k)
  then have "n div 256 < 256 ^ k"
    by (simp add: less_mult_imp_div_less mult.commute)
  then have ih: "big_endian_to_int (be_bytes k (n div 256)) = int (n div 256)"
    by (rule Suc.IH)
  have b: "unat (of_nat (n mod 256) :: byte) = n mod 256"
    by (simp add: unat_of_nat)
  have "int (n div 256) * 256 + int (n mod 256) = int n"
    by (metis div_mult_mod_eq of_nat_add of_nat_mult of_nat_numeral)
  then show ?case by (simp add: big_endian_snoc ih b)
qed

lemma big_endian_address_bytes: "big_endian_to_int (address_bytes a) = uint a"
proof -
  have "unat a < 2 ^ 160" using unsigned_less [of a] by simp
  then have "unat a < 256 ^ 20" by simp
  then show ?thesis by (simp add: address_bytes_def big_endian_be_bytes)
qed

lemma big_endian_uint256_slot: "big_endian_to_int (uint256_slot n) = uint n"
proof -
  have "unat n < 2 ^ 256" using unsigned_less [of n] by simp
  then have "unat n < 256 ^ 32" by simp
  then show ?thesis by (simp add: uint256_slot_def big_endian_be_bytes)
qed

lemma length_slots:
  "length (address_bytes a) = 20" "length (address_slot a) = 32" "length (uint256_slot n) = 32"
  by (simp_all add: address_bytes_def address_slot_def uint256_slot_def length_be_bytes)

lemma last40_address_slot:
  "last40 (HexBytes_hex lib (address_slot a)) = hex_of_bytes (address_bytes a)"
proof -
  have "drop (length (address_slot a) - 20) (address_slot a) = address_bytes a"
    by (simp add: address_slot_def length_slots)
  then show ?thesis using last40_long [of "address_slot a" lib] by (simp add: length_slots)
qed

section \<open>The decoder: round trip, determinism, truncated logs\<close>

lemma parse_synthetic_ok:
  "\<not> isl (parse_log lib self (synthetic_log sg tok sndr n amt dst txh h))"
proof -
  have "uint256_slot n \<noteq> []" using length_slots(3) [of n] by auto
  then show ?thesis
    by (simp add: isl_parse_log synthetic_log_def length_slots)
qed

text \<open>
  Claim C7 (decode round-trip). For every token and sender address, every nonce, amount and
  destination chain id, and whatever stands in topic slot 0, in the transaction hash and in
  the block number, the synthetic log built with the fixed encoding decodes to an event.
  Its \<open>token\<close> and \<open>sender\<close> are the checksum texts of the two addresses, and read back as
  hexadecimal numbers they are exactly the two addresses; its \<open>nonce\<close>, \<open>amount\<close> and
  \<open>destinationChainId\<close> are exactly the three integers.
\<close>

theorem decode_round_trip:
  "\<exists>ev. parse_log lib self (synthetic_log sg tok sndr n amt dst txh h) = Inr ev
     \<and> to_checksum_address lib (''0x'' @ hex_of_bytes (address_bytes tok)) = Inr (token ev)
     \<and> to_int_hexstr (token ev) = Inr (uint tok)
     \<and> to_checksum_address lib (''0x'' @ hex_of_bytes (address_bytes sndr)) = Inr (sender ev)
     \<and> to_int_hexstr (sender ev) = Inr (uint sndr)
     \<and> nonce ev = uint n
     \<and> amount ev = uint amt
     \<and> destinationChainId ev = uint dst"
proof -
  let ?log = "synthetic_log sg tok sndr n amt dst txh h"
  obtain ev where ev: "parse_log lib self ?log = Inr ev"
    using parse_synthetic_ok [of lib self sg tok sndr n amt dst txh h]
    by (cases "parse_log lib self ?log") simp_all
  have t: "log_topics ?log ! 1 = address_slot tok" "log_topics ?log ! 2 = address_slot sndr"
    "log_topics ?log ! 3 = uint256_slot n"
    by (simp_all add: synthetic_log_def)
  have d: "take 32 (log_data ?log) = uint256_slot amt"
    "take 32 (drop 32 (log_data ?log)) = uint256_slot dst"
    by (simp_all add: synthetic_log_def length_slots)
  have tk: "to_checksum_address lib (CHR ''0'' # CHR ''x'' # hex_of_bytes (address_bytes tok))
              = Inr (token ev)"
    using parse_log_Inr(1) [OF ev] by (simp only: t last40_address_slot)
  have sn: "to_checksum_address lib (CHR ''0'' # CHR ''x'' # hex_of_bytes (address_bytes sndr))
              = Inr (sender ev)"
    using parse_log_Inr(2) [OF ev] by (simp only: t last40_address_slot)
  have tv: "to_int_hexstr (token ev) = Inr (uint tok)"
    using to_int_hexstr_checksum [OF tk]
    by (simp only: hex_value_hex_of_bytes big_endian_address_bytes)
  have sv: "to_int_hexstr (sender ev) = Inr (uint sndr)"
    using to_int_hexstr_checksum [OF sn]
    by (simp only: hex_value_hex_of_bytes big_endian_address_bytes)
  have nn: "nonce ev = uint n"
    using parse_log_Inr(3) [OF ev] by (simp only: t big_endian_uint256_slot)
  have am: "amount ev = uint amt"
    using parse_log_Inr(4) [OF ev] by (simp only: d big_endian_uint256_slot)
  have ds: "destinationChainId ev = uint dst"
    using parse_log_Inr(5) [OF ev] by (simp only: d big_endian_uint256_slot)
  show ?thesis using ev tk sn tv sv nn am ds by simp
qed

text \<open>
  Claim C8, as amended. The result of \<open>_parse_log\<close>, the decoded event or the exception,
  is the same whatever the attributes of the scanner are and whatever its logger has
  written before; in particular a second call on the same raw log, made in the state the
  first call left, returns the same result. The call assigns no attribute. It is not free
  of effects: when it decodes the log, that is when the log has 4 topics, topics 1 and 2
  of 20 bytes or more and a non-empty topic 3, it writes one message to the logger, with
  the transaction hash of the log in hexadecimal; when it raises it writes none.
\<close>

theorem decode_deterministic_one_message:
  "fst (parse_log_io lib st1 log) = fst (parse_log_io lib st2 log)
   \<and> fst (parse_log_io lib (snd (parse_log_io lib st log)) log) = fst (parse_log_io lib st log)
   \<and> attributes (snd (parse_log_io lib st log)) = attributes st
   \<and> isl (fst (parse_log_io lib st log)) =
       (length (log_topics log) < 4 \<or> length (log_topics log ! 1) < 20
        \<or> length (log_topics log ! 2) < 20 \<or> log_topics log ! 3 = [])
   \<and> logged (snd (parse_log_io lib st log)) =
       logged st @
         (if isl (fst (parse_log_io lib st log)) then []
          else [''Successfully parsed TokensLocked event in tx ''
                  @ HexBytes_hex lib (log_transactionHash log)])"
proof -
  have p: "parse_log lib a log = parse_log lib b log" for a b
    by (simp add: parse_log_def)
  have r: "fst (parse_log_io lib s log) = parse_log lib (attributes st) log" for s
    using p [of "attributes s" "attributes st"]
    by (cases "parse_log lib (attributes st) log") (simp_all add: parse_log_io_def)
  have 1: "fst (parse_log_io lib st1 log) = fst (parse_log_io lib st2 log)"
    by (simp only: r)
  have 2: "fst (parse_log_io lib (snd (parse_log_io lib st log)) log) = fst (parse_log_io lib st log)"
    by (simp only: r)
  have 3: "attributes (snd (parse_log_io lib st log)) = attributes st"
    by (cases "parse_log lib (attributes st) log") (simp_all add: parse_log_io_def)
  have 4: "isl (fst (parse_log_io lib st log)) =
       (length (log_topics log) < 4 \<or> length (log_topics log ! 1) < 20
        \<or> length (log_topics log ! 2) < 20 \<or> log_topics log ! 3 = [])"
    by (simp only: r isl_parse_log)
  have 5: "logged (snd (parse_log_io lib st log)) =
       logged st @
         (if isl (fst (parse_log_io lib st log)) then []
          else [''Successfully parsed TokensLocked event in tx ''
                  @ HexBytes_hex lib (log_transactionHash log)])"
  proof (cases "parse_log lib (attributes st) log")
    case (Inl e)
    then show ?thesis by (simp add: parse_log_io_def)
  next
    case (Inr ev)
    with parse_log_Inr(6) [OF Inr] show ?thesis by (simp add: parse_log_io_def)
  qed
  from 1 2 3 4 5 show ?thesis by simp
qed

text \<open>
  Claim C8 as stated fails in its second half: decoding a well-formed log changes the
  state of the logger. After the call on the synthetic log below, in any state, the logger
  holds one message more, which names the transaction hash.
\<close>

theorem decode_writes_log_message_counterexample:
  "\<forall>lib st.
     snd (parse_log_io lib st
            (synthetic_log (replicate 32 0) 1 2 42 1000000 1 (replicate 32 0) 994)) \<noteq> st
   \<and> logged (snd (parse_log_io lib st
            (synthetic_log (replicate 32 0) 1 2 42 1000000 1 (replicate 32 0) 994)))
       = logged st @ [''Successfully parsed TokensLocked event in tx ''
                        @ HexBytes_hex lib (replicate 32 0)]"
proof (intro allI)
  fix lib :: web3_lib and st :: scanner_state
  let ?g = "synthetic_log (replicate 32 0) 1 2 42 1000000 1 (replicate 32 0) 994"
  obtain ev where ev: "parse_log lib (attributes st) ?g = Inr ev"
    using parse_synthetic_ok [of lib "attributes st" "replicate 32 0" 1 2 42 1000000 1 "replicate 32 0" 994]
    by (cases "parse_log lib (attributes st) ?g") simp_all
  have t: "transactionHash ev = HexBytes_hex lib (replicate 32 0)"
    using parse_log_Inr(6) [OF ev] by (simp add: synthetic_log_def)
  have l: "logged (snd (parse_log_io lib st ?g))
       = logged st @ [''Successfully parsed TokensLocked event in tx ''
                        @ HexBytes_hex lib (replicate 32 0)]"
    using ev t by (simp add: parse_log_io_def)
  then have "logged (snd (parse_log_io lib st ?g)) \<noteq> logged st" by simp
  then have "snd (parse_log_io lib st ?g) \<noteq> st" by auto
  with l show "snd (parse_log_io lib st ?g) \<noteq> st
   \<and> logged (snd (parse_log_io lib st ?g))
       = logged st @ [''Successfully parsed TokensLocked event in tx ''
                        @ HexBytes_hex lib (replicate 32 0)]"
    by simp
qed

text \<open>
  Claim C4, as amended. \<open>_parse_log\<close> checks the topics only. It raises exactly when the
  log has fewer than 4 topics, or topic 1 or topic 2 has fewer than 20 bytes, or topic 3 is
  empty; with fewer than 4 topics the exception is \<open>IndexError\<close> (or \<open>ValueError\<close>, when
  topic 1 or 2 is there and is not an address). The data payload is never checked:
  replacing the data of any log by any other bytes changes nothing to whether it decodes,
  and in the event of every log that decodes, \<open>amount\<close> is the big-endian integer of
  \<open>data[0:32]\<close> and \<open>destinationChainId\<close> that of \<open>data[32:64]\<close>, however few bytes these
  slices hold; the integer of no bytes is 0.
\<close>

theorem decode_needs_four_topics:
  "isl (parse_log lib self log) =
      (length (log_topics log) < 4 \<or> length (log_topics log ! 1) < 20
       \<or> length (log_topics log ! 2) < 20 \<or> log_topics log ! 3 = [])
   \<and> (length (log_topics log) < 4 \<longrightarrow>
        parse_log lib self log = Inl IndexError \<or> parse_log lib self log = Inl ValueError)
   \<and> isl (parse_log lib self (log\<lparr>log_data := d\<rparr>)) = isl (parse_log lib self log)
   \<and> (\<forall>ev. parse_log lib self log = Inr ev \<longrightarrow>
        amount ev = big_endian_to_int (take 32 (log_data log))
        \<and> destinationChainId ev = big_endian_to_int (take 32 (drop 32 (log_data log))))
   \<and> big_endian_to_int [] = 0"
proof -
  have 1: "isl (parse_log lib self log) =
      (length (log_topics log) < 4 \<or> length (log_topics log ! 1) < 20
       \<or> length (log_topics log ! 2) < 20 \<or> log_topics log ! 3 = [])"
    by (rule isl_parse_log)
  have 2: "length (log_topics log) < 4 \<longrightarrow>
        parse_log lib self log = Inl IndexError \<or> parse_log lib self log = Inl ValueError"
  proof
    assume "length (log_topics log) < 4"
    then have "isl (parse_log lib self log)" by (simp add: isl_parse_log)
    then obtain e where "parse_log lib self log = Inl e"
      by (cases "parse_log lib self log") simp_all
    with parse_log_Inl [of lib self log e]
    show "parse_log lib self log = Inl IndexError \<or> parse_log lib self log = Inl ValueError"
      by auto
  qed
  have 3: "isl (parse_log lib self (log\<lparr>log_data := d\<rparr>)) = isl (parse_log lib self log)"
    by (simp add: isl_parse_log)
  have 4: "\<forall>ev. parse_log lib self log = Inr ev \<longrightarrow>
        amount ev = big_endian_to_int (take 32 (log_data log))
        \<and> destinationChainId ev = big_endian_to_int (take 32 (drop 32 (log_data log)))"
    using parse_log_Inr(4,5) by blast
  have 5: "big_endian_to_int [] = 0" by (simp add: big_endian_to_int_def)
  from 1 2 3 4 5 show ?thesis by blast
qed

text \<open>
  A log with three topics raises; a log with four topics and the two data bytes 01 00
  decodes, with \<open>amount\<close> 256 and \<open>destinationChainId\<close> 0.
\<close>

theorem decode_needs_four_topics_witness:
  "\<forall>lib self.
     (parse_log lib self \<lparr>log_topics = [replicate 32 7, replicate 32 1, replicate 32 2],
        log_data = replicate 64 0, log_transactionHash = replicate 32 9, log_blockNumber = 994\<rparr>
       = Inl IndexError
      \<or> parse_log lib self \<lparr>log_topics = [replicate 32 7, replicate 32 1, replicate 32 2],
        log_data = replicate 64 0, log_transactionHash = replicate 32 9, log_blockNumber = 994\<rparr>
       = Inl ValueError)
   \<and> (\<exists>ev. parse_log lib self
          \<lparr>log_topics = [replicate 32 7, replicate 32 1, replicate 32 2, replicate 32 3],
           log_data = [1, 0], log_transactionHash = replicate 32 9, log_blockNumber = 994\<rparr> = Inr ev
        \<and> amount ev = 256 \<and> destinationChainId ev = 0)"
proof (intro allI)
  fix lib :: web3_lib and self :: scanner
  let ?l3 = "\<lparr>log_topics = [replicate 32 7, replicate 32 1, replicate 32 (2::byte)],
        log_data = replicate 64 0, log_transactionHash = replicate 32 9, log_blockNumber = 994\<rparr>"
  let ?l4 = "\<lparr>log_topics = [replicate 32 7, replicate 32 1, replicate 32 2, replicate 32 (3::byte)],
           log_data = [1, 0], log_transactionHash = replicate 32 9, log_blockNumber = 994\<rparr>"
  have a: "parse_log lib self ?l3 = Inl IndexError \<or> parse_log lib self ?l3 = Inl ValueError"
    using decode_needs_four_topics [where lib = lib and self = self and log = ?l3] by simp
  have "\<not> isl (parse_log lib self ?l4)"
    using decode_needs_four_topics [where lib = lib and self = self and log = ?l4] by simp
  then obtain ev where ev: "parse_log lib self ?l4 = Inr ev"
    by (cases "parse_log lib self ?l4") simp_all
  have "amount ev = 256 \<and> destinationChainId ev = 0"
    using decode_needs_four_topics [where lib = lib and self = self and log = ?l4] ev
    by (simp add: big_endian_to_int_def)
  with a ev show "(parse_log lib self ?l3 = Inl IndexError \<or> parse_log lib self ?l3 = Inl ValueError)
   \<and> (\<exists>ev. parse_log lib self ?l4 = Inr ev \<and> amount ev = 256 \<and> destinationChainId ev = 0)"
    by simp
qed

text \<open>
  Claim C4 as stated fails: a log with four 32-byte topics and no data at all has fewer
  than 64 data bytes, and it decodes to an event, with \<open>amount\<close> and
  \<open>destinationChainId\<close> both 0 (the slices \<open>data[0:32]\<close> and \<open>data[32:64]\<close> are empty, and
  the integer of no bytes is 0).
\<close>

theorem short_data_decodes_counterexample:
  "length (log_data \<lparr>log_topics = [replicate 32 7, replicate 32 1, replicate 32 2, replicate 32 3],
        log_data = [], log_transactionHash = replicate 32 9, log_blockNumber = 994\<rparr>) < 64
   \<and> (\<forall>lib self. \<exists>ev.
        parse_log lib self \<lparr>log_topics = [replicate 32 7, replicate 32 1, replicate 32 2, replicate 32 3],
          log_data = [], log_transactionHash = replicate 32 9, log_blockNumber = 994\<rparr> = Inr ev
        \<and> amount ev = 0 \<and> destinationChainId ev = 0)"
proof -
  let ?log = "\<lparr>log_topics = [replicate 32 7, replicate 32 1, replicate 32 2, replicate 32 (3::byte)],
          log_data = [], log_transactionHash = replicate 32 9, log_blockNumber = 994\<rparr>"
  have "\<exists>ev. parse_log lib self ?log = Inr ev \<and> amount ev = 0 \<and> destinationChainId ev = 0"
    for lib self
  proof -
    have "\<not> isl (parse_log lib self ?log)" by (simp add: isl_parse_log)
    then obtain ev where ev: "parse_log lib self ?log = Inr ev"
      by (cases "parse_log lib self ?log") simp_all
    from parse_log_Inr(4,5) [OF ev] have "amount ev = 0" "destinationChainId ev = 0"
      by (simp_all add: big_endian_to_int_def)
    with ev show ?thesis by simp
  qed
  then show ?thesis by simp
qed

section \<open>Facts about the scanner\<close>

lemma comprehension_all_ok:
  "\<not> list_ex (\<lambda>x. isl (f x)) xs \<Longrightarrow> comprehension f xs = Inr (map (\<lambda>x. projr (f x)) xs)"
proof (induction xs)
  case Nil
  then show ?case by simp
next
  case (Cons x xs)
  then obtain y where "f x = Inr y" by (cases "f x") simp_all
  with Cons show ?case by (simp add: bind_exn_def)
qed

lemma comprehension_some_fail:
  "list_ex (\<lambda>x. isl (f x)) xs \<Longrightarrow> isl (comprehension f xs)"
proof (induction xs)
  case Nil
  then show ?case by simp
next
  case (Cons x xs)
  then show ?case by (cases "f x") (auto simp: bind_exn_def split: sum.splits)
qed

lemma scan_blocks_fst:
  "fst (scan_blocks lib self node f t) =
     (if f > t \<or> isl (scan_try lib self node f t) then Inr []
      else scan_try lib self node f t)"
  by (cases "scan_try lib self node f t" rule: sum.exhaust [case_names Inl Inr])
     (auto simp: scan_blocks_def split: exn.splits)

lemma scan_try_query_fails:
  "node (scan_filter self f t) = Inl e \<Longrightarrow> scan_try lib self node f t = Inl e"
  by (simp add: scan_try_def bind_exn_def)

lemma scan_try_query_ok:
  "node (scan_filter self f t) = Inr logs \<Longrightarrow>
   scan_try lib self node f t = comprehension (parse_log lib self) logs"
  by (cases logs) (simp_all add: scan_try_def bind_exn_def)

lemma scan_blocks_returns: "\<not> isl (fst (scan_blocks lib self node f t))"
  by (cases "scan_try lib self node f t") (simp_all add: scan_blocks_fst)

section \<open>The scanner: batches, empty ranges, failures\<close>

text \<open>
  Claim C2, as amended. When the query of a non-empty range returns a batch of raw logs,
  \<open>scan_blocks\<close> returns the decoded events of all of them, in order, if every log of the
  batch decodes; if one or more of them fails to decode, the exception leaves the list
  comprehension, the handler \<open>except Exception\<close> catches it, and \<open>scan_blocks\<close> returns the
  empty list: the events of the other logs are dropped with it. No exception leaves
  \<open>scan_blocks\<close> in either case.
\<close>

theorem scan_blocks_batch:
  assumes "f \<le> t" and "node (scan_filter self f t) = Inr logs"
  shows "fst (scan_blocks lib self node f t) =
     (if list_ex (\<lambda>l. isl (parse_log lib self l)) logs then Inr []
      else Inr (map (\<lambda>l. projr (parse_log lib self l)) logs))"
proof (cases "list_ex (\<lambda>l. isl (parse_log lib self l)) logs")
  case True
  then have "isl (scan_try lib self node f t)"
    using assms(2) by (simp add: scan_try_query_ok comprehension_some_fail)
  with True show ?thesis by (simp add: scan_blocks_fst)
next
  case False
  then have "scan_try lib self node f t = Inr (map (\<lambda>l. projr (parse_log lib self l)) logs)"
    using assms(2) by (simp add: scan_try_query_ok comprehension_all_ok)
  with False assms(1) show ?thesis by (simp add: scan_blocks_fst)
qed

text \<open>
  The amended claim at a batch of three logs whose second has only the signature topic.
\<close>

theorem scan_blocks_batch_witness:
  "\<forall>lib self. (100::int) \<le> 110
     \<and> fst (scan_blocks lib self
          (\<lambda>fp. Inr [synthetic_log (replicate 32 0) 1 2 42 1000000 1 (replicate 32 0) 100,
                      \<lparr>log_topics = [replicate 32 0], log_data = replicate 64 0,
                       log_transactionHash = replicate 32 0, log_blockNumber = 105\<rparr>,
                      synthetic_log (replicate 32 0) 1 2 43 5 1 (replicate 32 0) 110])
          100 110) = Inr []"
proof (intro allI)
  fix lib :: web3_lib and self :: scanner
  let ?logs = "[synthetic_log (replicate 32 0) 1 2 42 1000000 1 (replicate 32 0) 100,
                      \<lparr>log_topics = [replicate 32 0], log_data = replicate 64 0,
                       log_transactionHash = replicate 32 0, log_blockNumber = 105\<rparr>,
                      synthetic_log (replicate 32 0) 1 2 43 5 1 (replicate 32 0) 110]"
  have b: "isl (parse_log lib self \<lparr>log_topics = [replicate 32 0], log_data = replicate 64 0,
                       log_transactionHash = replicate 32 0, log_blockNumber = 105\<rparr>)"
    by (simp add: isl_parse_log)
  show "(100::int) \<le> 110 \<and> fst (scan_blocks lib self (\<lambda>fp. Inr ?logs) 100 110) = Inr []"
    using scan_blocks_batch [of 100 110 "\<lambda>fp. Inr ?logs" self ?logs lib] b
    by simp
qed

text \<open>
  Claim C2 as stated fails at that batch: the first and the third log decode, the second
  does not, and \<open>scan_blocks\<close> returns the empty list, not the two decoded events.
\<close>

theorem one_bad_log_empties_batch_counterexample:
  "\<forall>lib self.
     \<not> isl (parse_log lib self (synthetic_log (replicate 32 0) 1 2 42 1000000 1 (replicate 32 0) 100))
   \<and> isl (parse_log lib self \<lparr>log_topics = [replicate 32 0], log_data = replicate 64 0,
                       log_transactionHash = replicate 32 0, log_blockNumber = 105\<rparr>)
   \<and> \<not> isl (parse_log lib self (synthetic_log (replicate 32 0) 1 2 43 5 1 (replicate 32 0) 110))
   \<and> fst (scan_blocks lib self
          (\<lambda>fp. Inr [synthetic_log (replicate 32 0) 1 2 42 1000000 1 (replicate 32 0) 100,
                      \<lparr>log_topics = [replicate 32 0], log_data = replicate 64 0,
                       log_transactionHash = replicate 32 0, log_blockNumber = 105\<rparr>,
                      synthetic_log (replicate 32 0) 1 2 43 5 1 (replicate 32 0) 110])
          100 110) = Inr []
   \<and> fst (scan_blocks lib self
          (\<lambda>fp. Inr [synthetic_log (replicate 32 0) 1 2 42 1000000 1 (replicate 32 0) 100,
                      \<lparr>log_topics = [replicate 32 0], log_data = replicate 64 0,
                       log_transactionHash = replicate 32 0, log_blockNumber = 105\<rparr>,
                      synthetic_log (replicate 32 0) 1 2 43 5 1 (replicate 32 0) 110])
          100 110)
       \<noteq> Inr [projr (parse_log lib self
                    (synthetic_log (replicate 32 0) 1 2 42 1000000 1 (replicate 32 0) 100)),
               projr (parse_log lib self
                    (synthetic_log (replicate 32 0) 1 2 43 5 1 (replicate 32 0) 110))]"
proof (intro allI)
  fix lib :: web3_lib and self :: scanner
  let ?g1 = "synthetic_log (replicate 32 0) 1 2 42 1000000 1 (replicate 32 0) 100"
  let ?b = "\<lparr>log_topics = [replicate 32 0], log_data = replicate 64 0,
                       log_transactionHash = replicate 32 0, log_blockNumber = 105\<rparr>"
  let ?g3 = "synthetic_log (replicate 32 0) 1 2 43 5 1 (replicate 32 0) 110"
  have b: "isl (parse_log lib self ?b)" by (simp add: isl_parse_log)
  have "list_ex (\<lambda>l. isl (parse_log lib self l)) [?g1, ?b, ?g3]" using b by simp
  then have "isl (scan_try lib self (\<lambda>fp. Inr [?g1, ?b, ?g3]) 100 110)"
    by (simp only: scan_try_query_ok comprehension_some_fail)
  then have e: "fst (scan_blocks lib self (\<lambda>fp. Inr [?g1, ?b, ?g3]) 100 110) = Inr []"
    by (simp add: scan_blocks_fst)
  show "\<not> isl (parse_log lib self ?g1) \<and> isl (parse_log lib self ?b)
     \<and> \<not> isl (parse_log lib self ?g3)
     \<and> fst (scan_blocks lib self (\<lambda>fp. Inr [?g1, ?b, ?g3]) 100 110) = Inr []
     \<and> fst (scan_blocks lib self (\<lambda>fp. Inr [?g1, ?b, ?g3]) 100 110)
         \<noteq> Inr [projr (parse_log lib self ?g1), projr (parse_log lib self ?g3)]"
    using b e parse_synthetic_ok by simp
qed

text \<open>
  Claim C9 (empty range). When \<open>from_block > to_block\<close>, \<open>scan_blocks\<close> returns the empty
  list, as a value and not as an exception, and sends no filter to the node.
\<close>

theorem empty_range_no_query:
  "f > t \<Longrightarrow> scan_blocks lib self node f t = (Inr [], [])"
  by (simp add: scan_blocks_def)

text \<open>The range \<open>scan(5, 3)\<close> of the specification, on any node.\<close>

theorem empty_range_no_query_witness:
  "\<forall>lib self node. (5::int) > 3 \<and> scan_blocks lib self node 5 3 = (Inr [], [])"
  using empty_range_no_query [of 3 5] by simp

text \<open>
  Claim C10 (\<open>scan_blocks\<close> never raises). For every range and every node, \<open>scan_blocks\<close>
  returns a list. Whenever the body of its \<open>try\<close> statement raises, the query with
  \<open>BlockNotFound\<close> or with any other exception, or the decoding of one of the logs, the list
  is empty: the very value it returns when the query succeeds and finds no log.
\<close>

theorem scan_blocks_never_raises:
  "(\<exists>events. fst (scan_blocks lib self node f t) = Inr events)
   \<and> (isl (scan_try lib self node f t) \<longrightarrow> fst (scan_blocks lib self node f t) = Inr [])
   \<and> (isl (node (scan_filter self f t)) \<longrightarrow> isl (scan_try lib self node f t))
   \<and> fst (scan_blocks lib self (\<lambda>fp. Inr []) f t) = Inr []"
proof -
  have 1: "\<exists>events. fst (scan_blocks lib self node f t) = Inr events"
    using scan_blocks_returns [of lib self node f t]
    by (cases "fst (scan_blocks lib self node f t)") simp_all
  have 2: "isl (scan_try lib self node f t) \<longrightarrow> fst (scan_blocks lib self node f t) = Inr []"
    by (simp add: scan_blocks_fst)
  have 3: "isl (node (scan_filter self f t)) \<longrightarrow> isl (scan_try lib self node f t)"
    by (cases "node (scan_filter self f t)") (simp_all add: scan_try_query_fails)
  have "scan_try lib self (\<lambda>fp. Inr []) f t = Inr []"
    by (simp add: scan_try_query_ok)
  then have 4: "fst (scan_blocks lib self (\<lambda>fp. Inr []) f t) = Inr []"
    by (simp add: scan_blocks_fst)
  from 1 2 3 4 show ?thesis by blast
qed

text \<open>A node that answers \<open>BlockNotFound\<close> for the range 100 to 110.\<close>

theorem scan_blocks_never_raises_witness:
  "\<forall>lib self.
     isl ((\<lambda>fp. Inl BlockNotFound :: exn + raw_log list) (scan_filter self 100 110))
   \<and> isl (scan_try lib self (\<lambda>fp. Inl BlockNotFound) 100 110)
   \<and> fst (scan_blocks lib self (\<lambda>fp. Inl BlockNotFound) 100 110) = Inr []
   \<and> fst (scan_blocks lib self (\<lambda>fp. Inr []) 100 110) = Inr []"
proof (intro allI)
  fix lib :: web3_lib and self :: scanner
  show "isl ((\<lambda>fp. Inl BlockNotFound :: exn + raw_log list) (scan_filter self 100 110))
   \<and> isl (scan_try lib self (\<lambda>fp. Inl BlockNotFound) 100 110)
   \<and> fst (scan_blocks lib self (\<lambda>fp. Inl BlockNotFound) 100 110) = Inr []
   \<and> fst (scan_blocks lib self (\<lambda>fp. Inr []) 100 110) = Inr []"
    using scan_blocks_never_raises [of lib self "\<lambda>fp. Inl BlockNotFound" 100 110]
    by simp
qed

section \<open>The poll loop: the cursor\<close>

lemma cycle_try_Inr:
  assumes "cycle_try lib scnr conf env c = Inr (c', out)"
  shows "(out = NoNewBlocks \<and> c' = c) \<or> (out = Committed (c + 1) c' \<and> c + 1 \<le> c')"
  using assms unfolding cycle_try_def
  by (auto simp: bind_exn_Inr Let_def split: if_splits)

lemma main_cycle_cases:
  "(snd (main_cycle lib scnr conf env c) = Committed (c + 1) (fst (main_cycle lib scnr conf env c))
      \<and> c + 1 \<le> fst (main_cycle lib scnr conf env c))
   \<or> (fst (main_cycle lib scnr conf env c) = c
      \<and> snd (main_cycle lib scnr conf env c) \<in> {NoNewBlocks, Backoff, Critical})"
proof (cases "cycle_try lib scnr conf env c")
  case (Inl e)
  then show ?thesis by (cases e) (simp_all add: main_cycle_def)
next
  case (Inr r)
  obtain c' out where r: "r = (c', out)" by (cases r)
  from cycle_try_Inr [OF Inr [unfolded r]] Inr r show ?thesis
    by (auto simp: main_cycle_def)
qed

lemma main_cycle_mono: "c \<le> fst (main_cycle lib scnr conf env c)"
  using main_cycle_cases [of lib scnr conf env c] by auto

lemma run_cycles_snoc:
  "run_cycles lib scnr conf (envs @ [env]) c
     = fst (main_cycle lib scnr conf env (run_cycles lib scnr conf envs c))"
  by (induction envs arbitrary: c) simp_all

lemma committed_ranges_head:
  "committed_ranges lib scnr conf envs c = (a, b) # rest \<Longrightarrow> a = c + 1 \<and> a \<le> b"
proof (induction envs arbitrary: c)
  case Nil
  then show ?case by simp
next
  case (Cons env envs)
  obtain c' out where m: "main_cycle lib scnr conf env c = (c', out)"
    by (cases "main_cycle lib scnr conf env c")
  from main_cycle_cases [of lib scnr conf env c] m
  consider "out = Committed (c + 1) c'" "c + 1 \<le> c'" | "c' = c" "out \<in> {NoNewBlocks, Backoff, Critical}"
    by auto
  then show ?case
  proof cases
    case 1
    with Cons.prems m show ?thesis by simp
  next
    case 2
    with Cons.prems m have "committed_ranges lib scnr conf envs c = (a, b) # rest" by auto
    then show ?thesis by (rule Cons.IH)
  qed
qed

text \<open>
  Claim C5 (monotonic cursor). Whatever the first cycles of a run were, and whatever the
  next cycle meets (any chain head, lower than before or not, any answer of the node, any
  exception), \<open>last_processed_block\<close> after the next cycle is at least what it was before
  it.
\<close>

theorem cursor_monotonic:
  "run_cycles lib scnr conf envs c \<le> run_cycles lib scnr conf (envs @ [env]) c"
  by (simp only: run_cycles_snoc main_cycle_mono)

text \<open>
  Claim C6 (no gap, no overlap). In any run of the loop, started at any cursor, every two
  ranges committed one after the other, with or without cycles in between that commit
  nothing, are \<open>[a, b]\<close> and \<open>[b + 1, c]\<close>: both are non-empty, they share no height, and
  together they are exactly \<open>[a, c]\<close>.
\<close>

theorem committed_ranges_contiguous:
  "successively
     (\<lambda>(a, b) (a', c). a' = b + 1 \<and> a \<le> b \<and> a' \<le> c
        \<and> {a..b} \<inter> {a'..c} = {} \<and> {a..b} \<union> {a'..c} = {a..c})
     (committed_ranges lib scnr conf envs c0)"
proof (induction envs arbitrary: c0)
  case Nil
  show ?case by simp
next
  case (Cons env envs)
  obtain c' out where m: "main_cycle lib scnr conf env c0 = (c', out)"
    by (cases "main_cycle lib scnr conf env c0")
  from main_cycle_cases [of lib scnr conf env c0] m
  consider "out = Committed (c0 + 1) c'" "c0 + 1 \<le> c'" | "c' = c0" "out \<in> {NoNewBlocks, Backoff, Critical}"
    by auto
  then show ?case
  proof cases
    case 1
    show ?thesis
    proof (cases "committed_ranges lib scnr conf envs c'")
      case Nil
      with 1 m show ?thesis by simp
    next
      case (Cons r rest)
      obtain a' c where r: "r = (a', c)" by (cases r)
      from committed_ranges_head [OF Cons [unfolded r]] have h: "a' = c' + 1" "a' \<le> c" by simp_all
      have "{c0 + 1..c'} \<inter> {c' + 1..c} = {}" by auto
      moreover have "{c0 + 1..c'} \<union> {c' + 1..c} = {c0 + 1..c}" using 1(2) h by auto
      ultimately show ?thesis
        using 1 m Cons r h Cons.IH [of c'] by (simp add: successively_Cons)
    qed
  next
    case 2
    with m Cons.IH [of c0] show ?thesis by auto
  qed
qed

section \<open>The poll loop: commits\<close>

lemma main_cycle_scanned:
  assumes "latest_block env = Inr latest" and "c + 1 \<le> latest - conf"
    and "fst (scan_blocks lib scnr (get_logs env) (c + 1) (latest - conf)) = Inr events"
  shows "main_cycle lib scnr conf env c =
     (case process_events (api env) 0 events of
        Inr u \<Rightarrow> (latest - conf, Committed (c + 1) (latest - conf))
      | Inl ConnectionError \<Rightarrow> (c, Backoff)
      | Inl e \<Rightarrow> (c, Critical))"
  using assms
  by (cases "process_events (api env) 0 events")
     (simp_all add: main_cycle_def cycle_try_def bind_exn_def Let_def)

lemma scan_blocks_query_fails:
  assumes "isl (node (scan_filter self f t))"
  shows "fst (scan_blocks lib self node f t) = Inr []"
proof -
  from assms have "isl (scan_try lib self node f t)"
    by (cases "node (scan_filter self f t)") (simp_all add: scan_try_query_fails)
  then show ?thesis by (simp add: scan_blocks_fst)
qed

lemma isl_process_events:
  "isl (process_events answers i evs)
     = (\<exists>k<length evs. isl (process_event (answers (i + k)) (evs ! k)))"
proof (induction evs arbitrary: i)
  case Nil
  show ?case by simp
next
  case (Cons ev evs)
  have "isl (process_events answers i (ev # evs))
          = (isl (process_event (answers i) ev) \<or> isl (process_events answers (Suc i) evs))"
    by (simp add: isl_bind_exn)
  also have "\<dots> = (isl (process_event (answers i) ev)
                    \<or> (\<exists>k<length evs. isl (process_event (answers (Suc i + k)) (evs ! k))))"
    by (simp only: Cons.IH)
  also have "\<dots> = (\<exists>k<length (ev # evs). isl (process_event (answers (i + k)) ((ev # evs) ! k)))"
    by (auto simp: less_Suc_eq_0_disj)
  finally show ?case .
qed

lemma process_event_RequestException: "process_event RequestException ev = Inr False"
  by (simp add: process_event_def)

text \<open>
  Claim C3, as amended. In a cycle that reads the chain head and finds
  \<open>from_block \<le> to_block\<close>, \<open>scan_blocks\<close> returns a list of events, and afterwards
  \<open>last_processed_block\<close> is \<open>to_block\<close> unless one of the \<open>process_event\<close> calls on these
  events raises an exception, in which case it is left as it was. When every call returns,
  \<open>True\<close> or \<open>False\<close>, the cycle commits: a sink result of \<open>False\<close>, which is what a failed
  price request gives, does not block the commit. A query that fails, with \<open>BlockNotFound\<close>
  or with anything else, gives the empty list, and the empty list always commits.
\<close>

theorem commit_after_scan:
  assumes "latest_block env = Inr latest" and "c + 1 \<le> latest - conf"
  shows "\<exists>events. fst (scan_blocks lib scnr (get_logs env) (c + 1) (latest - conf)) = Inr events
     \<and> fst (main_cycle lib scnr conf env c)
         = (if isl (process_events (api env) 0 events) then c else latest - conf)
     \<and> fst (main_cycle lib scnr conf env c)
         = (if \<exists>k<length events. isl (process_event (api env k) (events ! k))
            then c else latest - conf)
     \<and> ((\<forall>k<length events. process_event (api env k) (events ! k) = Inr True
                          \<or> process_event (api env k) (events ! k) = Inr False)
         \<longrightarrow> main_cycle lib scnr conf env c
               = (latest - conf, Committed (c + 1) (latest - conf)))
     \<and> (\<forall>ev. process_event RequestException ev = Inr False)
     \<and> (isl (get_logs env (scan_filter scnr (c + 1) (latest - conf))) \<longrightarrow> events = [])
     \<and> (events = [] \<longrightarrow> fst (main_cycle lib scnr conf env c) = latest - conf)"
proof -
  obtain events where ev: "fst (scan_blocks lib scnr (get_logs env) (c + 1) (latest - conf)) = Inr events"
    using scan_blocks_returns [of lib scnr "get_logs env" "c + 1" "latest - conf"]
    by (cases "fst (scan_blocks lib scnr (get_logs env) (c + 1) (latest - conf))") simp_all
  have m: "fst (main_cycle lib scnr conf env c)
         = (if isl (process_events (api env) 0 events) then c else latest - conf)"
  proof (cases "process_events (api env) 0 events")
    case (Inl e)
    then show ?thesis
      by (cases e) (simp_all add: main_cycle_scanned [OF assms ev])
  next
    case (Inr u)
    then show ?thesis by (simp add: main_cycle_scanned [OF assms ev])
  qed
  have k: "isl (process_events (api env) 0 events)
             = (\<exists>k<length events. isl (process_event (api env k) (events ! k)))"
    using isl_process_events [of "api env" 0 events] by simp
  have m': "fst (main_cycle lib scnr conf env c)
         = (if \<exists>k<length events. isl (process_event (api env k) (events ! k))
            then c else latest - conf)"
    using m by (simp only: k)
  have r: "(\<forall>k<length events. process_event (api env k) (events ! k) = Inr True
                          \<or> process_event (api env k) (events ! k) = Inr False)
         \<longrightarrow> main_cycle lib scnr conf env c
               = (latest - conf, Committed (c + 1) (latest - conf))"
  proof
    assume a: "\<forall>k<length events. process_event (api env k) (events ! k) = Inr True
                          \<or> process_event (api env k) (events ! k) = Inr False"
    have "\<not> (\<exists>k<length events. isl (process_event (api env k) (events ! k)))"
    proof
      assume "\<exists>k<length events. isl (process_event (api env k) (events ! k))"
      then obtain j where j: "j < length events" "isl (process_event (api env j) (events ! j))"
        by blast
      from a j(1) have "process_event (api env j) (events ! j) = Inr True
                        \<or> process_event (api env j) (events ! j) = Inr False" by blast
      with j(2) show False by auto
    qed
    then have "\<not> isl (process_events (api env) 0 events)" using k by blast
    then obtain u where "process_events (api env) 0 events = Inr u"
      by (cases "process_events (api env) 0 events") simp_all
    then show "main_cycle lib scnr conf env c
               = (latest - conf, Committed (c + 1) (latest - conf))"
      by (simp add: main_cycle_scanned [OF assms ev])
  qed
  have f: "\<forall>ev. process_event RequestException ev = Inr False"
    by (simp add: process_event_RequestException)
  have q: "isl (get_logs env (scan_filter scnr (c + 1) (latest - conf))) \<longrightarrow> events = []"
    using ev scan_blocks_query_fails [of "get_logs env" scnr "c + 1" "latest - conf" lib] by auto
  have e: "events = [] \<longrightarrow> fst (main_cycle lib scnr conf env c) = latest - conf"
    using m by auto
  from ev m m' r f q e show ?thesis by blast
qed

text \<open>
  Two cycles at cursor 99, head 116, 6 confirmations. In the first the node returns one
  well-formed log for the range 100 to 110 and the price request fails: \<open>scan_blocks\<close>
  returns one event, \<open>process_event\<close> returns \<open>False\<close> for it, and the cycle commits 110. In
  the second the node answers \<open>BlockNotFound\<close>, and the cursor is 110 as well.
\<close>

theorem commit_after_scan_witness:
  "\<forall>lib scnr.
     latest_block \<lparr>latest_block = Inr 116,
        get_logs = (\<lambda>fp. Inr [synthetic_log (replicate 32 0) 1 2 42 1000000 1 (replicate 32 0) 105]),
        api = (\<lambda>i. RequestException)\<rparr> = Inr 116
   \<and> (99::int) + 1 \<le> 116 - 6
   \<and> fst (scan_blocks lib scnr
        (\<lambda>fp. Inr [synthetic_log (replicate 32 0) 1 2 42 1000000 1 (replicate 32 0) 105])
        100 110)
       = Inr [projr (parse_log lib scnr
                (synthetic_log (replicate 32 0) 1 2 42 1000000 1 (replicate 32 0) 105))]
   \<and> process_event RequestException
        (projr (parse_log lib scnr
                (synthetic_log (replicate 32 0) 1 2 42 1000000 1 (replicate 32 0) 105)))
       = Inr False
   \<and> main_cycle lib scnr 6
        \<lparr>latest_block = Inr 116,
         get_logs = (\<lambda>fp. Inr [synthetic_log (replicate 32 0) 1 2 42 1000000 1 (replicate 32 0) 105]),
         api = (\<lambda>i. RequestException)\<rparr> 99 = (110, Committed 100 110)
   \<and> fst (main_cycle lib scnr 6
            \<lparr>latest_block = Inr 116, get_logs = (\<lambda>fp. Inl BlockNotFound),
             api = (\<lambda>i. RequestException)\<rparr> 99) = 110"
proof (intro allI)
  fix lib :: web3_lib and scnr :: scanner
  let ?g = "synthetic_log (replicate 32 0) 1 2 42 1000000 1 (replicate 32 0) 105"
  let ?env = "\<lparr>latest_block = Inr 116, get_logs = (\<lambda>fp. Inr [?g]),
         api = (\<lambda>i. RequestException)\<rparr>"
  let ?env' = "\<lparr>latest_block = Inr 116, get_logs = (\<lambda>fp. Inl BlockNotFound :: exn + raw_log list),
         api = (\<lambda>i. RequestException)\<rparr>"
  have ok: "\<not> list_ex (\<lambda>l. isl (parse_log lib scnr l)) [?g]"
    using parse_synthetic_ok by simp
  have "scan_try lib scnr (\<lambda>fp. Inr [?g]) 100 110 = Inr [projr (parse_log lib scnr ?g)]"
    using comprehension_all_ok [OF ok] by (simp only: scan_try_query_ok list.map)
  then have s: "fst (scan_blocks lib scnr (\<lambda>fp. Inr [?g]) 100 110)
                  = Inr [projr (parse_log lib scnr ?g)]"
    by (simp add: scan_blocks_fst)
  have h1: "latest_block ?env = Inr 116" by simp
  have h1': "latest_block ?env' = Inr 116" by simp
  have h2: "(99::int) + 1 \<le> 116 - 6" by simp
  have p: "process_event RequestException (projr (parse_log lib scnr ?g)) = Inr False"
    using commit_after_scan [OF h1 h2, of lib scnr] by blast
  have c1: "main_cycle lib scnr 6 ?env 99 = (110, Committed 100 110)"
    using commit_after_scan [OF h1 h2, of lib scnr] s p by auto
  have c2: "fst (main_cycle lib scnr 6 ?env' 99) = 110"
    using commit_after_scan [OF h1' h2, of lib scnr] by auto
  from h1 h2 s p c1 c2
  show "latest_block ?env = Inr 116
   \<and> (99::int) + 1 \<le> 116 - 6
   \<and> fst (scan_blocks lib scnr (\<lambda>fp. Inr [?g]) 100 110) = Inr [projr (parse_log lib scnr ?g)]
   \<and> process_event RequestException (projr (parse_log lib scnr ?g)) = Inr False
   \<and> main_cycle lib scnr 6 ?env 99 = (110, Committed 100 110)
   \<and> fst (main_cycle lib scnr 6 ?env' 99) = 110"
    by blast
qed

text \<open>
  Claim C3 as stated fails when the sink raises. Cursor 99, head 116, 6 confirmations; the
  node returns one well-formed log for the range 100 to 110, so \<open>scan_blocks\<close> returns one
  event; the price API answers with a JSON array, on which \<open>price_data.get\<close> raises
  \<open>AttributeError\<close>. The exception leaves \<open>process_event\<close> and the \<open>try\<close> body of the loop
  before the assignment: the cursor is still 99.
\<close>

theorem sink_exception_skips_commit_counterexample:
  "\<forall>lib scnr.
     (99::int) + 1 \<le> 116 - 6
   \<and> \<not> isl (fst (scan_blocks lib scnr
         (\<lambda>fp. Inr [synthetic_log (replicate 32 0) 1 2 42 1000000 1 (replicate 32 0) 105])
         100 110))
   \<and> main_cycle lib scnr 6
        \<lparr>latest_block = Inr 116,
         get_logs = (\<lambda>fp. Inr [synthetic_log (replicate 32 0) 1 2 42 1000000 1 (replicate 32 0) 105]),
         api = (\<lambda>i. JsonBody (JArr []))\<rparr> 99 = (99, Critical)"
proof (intro allI)
  fix lib :: web3_lib and scnr :: scanner
  let ?g = "synthetic_log (replicate 32 0) 1 2 42 1000000 1 (replicate 32 0) 105"
  let ?env = "\<lparr>latest_block = Inr 116, get_logs = (\<lambda>fp. Inr [?g]),
         api = (\<lambda>i. JsonBody (JArr []))\<rparr>"
  have ok: "\<not> list_ex (\<lambda>l. isl (parse_log lib scnr l)) [?g]"
    using parse_synthetic_ok by simp
  have "scan_try lib scnr (\<lambda>fp. Inr [?g]) 100 110 = Inr [projr (parse_log lib scnr ?g)]"
    using comprehension_all_ok [OF ok] by (simp only: scan_try_query_ok list.map)
  then have s: "fst (scan_blocks lib scnr (get_logs ?env) (99 + 1) (116 - 6))
                  = Inr [projr (parse_log lib scnr ?g)]"
    by (simp add: scan_blocks_fst)
  have p: "process_event (JsonBody (JArr [])) ev = Inl AttributeError" for ev
    by (simp add: process_event_def py_get_def bind_exn_def)
  have "main_cycle lib scnr 6 ?env 99 = (99, Critical)"
    using main_cycle_scanned [of ?env 116 99 6 lib scnr, OF _ _ s]
    by (simp add: p bind_exn_def)
  moreover have "\<not> isl (fst (scan_blocks lib scnr (\<lambda>fp. Inr [?g]) 100 110))"
    by (rule scan_blocks_returns)
  ultimately show "(99::int) + 1 \<le> 116 - 6
   \<and> \<not> isl (fst (scan_blocks lib scnr (\<lambda>fp. Inr [?g]) 100 110))
   \<and> main_cycle lib scnr 6 ?env 99 = (99, Critical)"
    by simp
qed

text \<open>
  Claim C1 fails on the code. Cursor 99, head 116, 6 confirmations, so the range is 100 to
  110, and the node answers \<open>BlockNotFound\<close>. \<open>scan_blocks\<close> returns the empty list, the
  loop commits, and the cursor is 110 after the cycle, not 99. When the head is 120 in the
  following cycle, the range scanned starts at 111: the range 100 to 110 is never queried
  again.
\<close>

theorem range_unavailable_advances_cursor:
  "main_cycle lib scnr 6
     \<lparr>latest_block = Inr 116, get_logs = (\<lambda>fp. Inl BlockNotFound), api = a\<rparr> 99
     = (110, Committed 100 110)
   \<and> main_cycle lib scnr 6
     \<lparr>latest_block = Inr 120, get_logs = (\<lambda>fp. Inl BlockNotFound), api = a\<rparr> 110
     = (114, Committed 111 114)"
proof -
  have 1: "main_cycle lib scnr 6
     \<lparr>latest_block = Inr 116, get_logs = (\<lambda>fp. Inl BlockNotFound), api = a\<rparr> 99
     = (110, Committed 100 110)"
    using main_cycle_scanned [of "\<lparr>latest_block = Inr 116, get_logs = (\<lambda>fp. Inl BlockNotFound), api = a\<rparr>"
        116 99 6 lib scnr "[]"]
    by (simp add: scan_blocks_query_fails)
  have 2: "main_cycle lib scnr 6
     \<lparr>latest_block = Inr 120, get_logs = (\<lambda>fp. Inl BlockNotFound), api = a\<rparr> 110
     = (114, Committed 111 114)"
    using main_cycle_scanned [of "\<lparr>latest_block = Inr 120, get_logs = (\<lambda>fp. Inl BlockNotFound), api = a\<rparr>"
        120 110 6 lib scnr "[]"]
    by (simp add: scan_blocks_query_fails)
  from 1 2 show ?thesis by simp
qed

text \<open>A run of three cycles: a commit, a cycle with no new block, and a second commit.\<close>

theorem committed_ranges_contiguous_witness:
  "\<forall>lib scnr.
     committed_ranges lib scnr 6
       [\<lparr>latest_block = Inr 116, get_logs = (\<lambda>fp. Inr []), api = (\<lambda>i. RequestException)\<rparr>,
        \<lparr>latest_block = Inr 116, get_logs = (\<lambda>fp. Inr []), api = (\<lambda>i. RequestException)\<rparr>,
        \<lparr>latest_block = Inr 120, get_logs = (\<lambda>fp. Inr []), api = (\<lambda>i. RequestException)\<rparr>] 99
       = [(100, 110), (111, 114)]
   \<and> successively
     (\<lambda>(a, b) (a', c). a' = b + 1 \<and> a \<le> b \<and> a' \<le> c
        \<and> {a..b} \<inter> {a'..c} = {} \<and> {a..b} \<union> {a'..c} = {a..c})
     [(100, 110), (111, 114 :: int)]"
proof (intro allI)
  fix lib :: web3_lib and scnr :: scanner
  let ?e1 = "\<lparr>latest_block = Inr 116, get_logs = (\<lambda>fp. Inr []), api = (\<lambda>i. RequestException)\<rparr>"
  let ?e2 = "\<lparr>latest_block = Inr 120, get_logs = (\<lambda>fp. Inr []), api = (\<lambda>i. RequestException)\<rparr>"
  have s: "fst (scan_blocks lib scnr (\<lambda>fp. Inr []) f t) = Inr []" for f t
    by (simp add: scan_blocks_fst scan_try_query_ok)
  have 1: "main_cycle lib scnr 6 ?e1 99 = (110, Committed 100 110)"
    using main_cycle_scanned [of ?e1 116 99 6 lib scnr "[]"] by (simp add: s)
  have 2: "main_cycle lib scnr 6 ?e1 110 = (110, NoNewBlocks)"
    by (simp add: main_cycle_def cycle_try_def bind_exn_def)
  have 3: "main_cycle lib scnr 6 ?e2 110 = (114, Committed 111 114)"
    using main_cycle_scanned [of ?e2 120 110 6 lib scnr "[]"] by (simp add: s)
  have r: "committed_ranges lib scnr 6 [?e1, ?e1, ?e2] 99 = [(100, 110), (111, 114)]"
    by (simp add: 1 2 3)
  show "committed_ranges lib scnr 6 [?e1, ?e1, ?e2] 99 = [(100, 110), (111, 114)]
   \<and> successively
     (\<lambda>(a, b) (a', c). a' = b + 1 \<and> a \<le> b \<and> a' \<le> c
        \<and> {a..b} \<inter> {a'..c} = {} \<and> {a..b} \<union> {a'..c} = {a..c})
     [(100, 110), (111, 114 :: int)]"
    using committed_ranges_contiguous [of lib scnr 6 "[?e1, ?e1, ?e2]" 99]
    by (simp only: r simp_thms)
qed

end
